theory Spec2Isabelle
  imports Complex_Main
begin

section \<open>Smart attendance: the recognition session (recognize_attendance.py) and its start command (app.py)\<close>

text \<open>
  The script is modelled by explicit state passing. Python dictionaries are association
  lists in insertion order, the deque is a list (append at the end, popleft at the head),
  the set of marked names is a HOL set. Everything the script reads from outside (command
  line, files, camera frames, recogniser predictions, key presses, the clock, the success
  of a file write) is an input of the model. So are Python's own \<open>str.lower\<close> and
  \<open>str.upper\<close>: the definitions take them as they are given, and every property holds
  whatever these two functions are. A string is the list of the bytes of its UTF-8 form.
\<close>

subsection \<open>Dictionaries and strings\<close>

definition dict_get :: "('k \<times> 'v) list \<Rightarrow> 'k \<Rightarrow> 'v \<Rightarrow> 'v" where
  \<comment> \<open>\<open>d.get(k, dflt)\<close>\<close>
  "dict_get d k dflt = (case map_of d k of None \<Rightarrow> dflt | Some v \<Rightarrow> v)"

fun dict_set :: "'k \<Rightarrow> 'v \<Rightarrow> ('k \<times> 'v) list \<Rightarrow> ('k \<times> 'v) list" where
  \<comment> \<open>\<open>d[k] = v\<close>: an existing key keeps its place, a new key goes last\<close>
  "dict_set k v [] = [(k, v)]"
| "dict_set k v ((k', v') # d) =
     (if k' = k then (k, v) # d else (k', v') # dict_set k v d)"

definition lower_char :: "char \<Rightarrow> char" where
  "lower_char c =
     (let n = (of_char c :: nat) in if 65 \<le> n \<and> n \<le> 90 then char_of (n + 32) else c)"

definition upper_char :: "char \<Rightarrow> char" where
  "upper_char c =
     (let n = (of_char c :: nat) in if 97 \<le> n \<and> n \<le> 122 then char_of (n - 32) else c)"

definition ascii_lower :: "string \<Rightarrow> string" where
  \<comment> \<open>what \<open>str.lower()\<close> does on ASCII text; used in the examples only\<close>
  "ascii_lower s = map lower_char s"

definition ascii_upper :: "string \<Rightarrow> string" where
  \<comment> \<open>what \<open>str.upper()\<close> does on ASCII text; used in the examples only\<close>
  "ascii_upper s = map upper_char s"

definition replace_space :: "string \<Rightarrow> string" where
  \<comment> \<open>\<open>s.replace(" ", "_")\<close>\<close>
  "replace_space s = map (\<lambda>c. if c = CHR '' '' then CHR ''_'' else c) s"

subsection \<open>Configuration constants (config.py and the script)\<close>

definition RECOGNITION_CONFIDENCE_THRESHOLD :: real where
  "RECOGNITION_CONFIDENCE_THRESHOLD = 75"

definition BATCH_WRITE_INTERVAL :: nat where
  "BATCH_WRITE_INTERVAL = 10"

definition process_every_n_frames :: nat where
  "process_every_n_frames = 2"

subsection \<open>Data\<close>

type_synonym info = "(string \<times> string) list"
  \<comment> \<open>one student's JSON object: its string-valued entries (name, rollNo, branch,
      section, as every writer of the database stores them)\<close>

type_synonym student_db = "(string \<times> info) list"
  \<comment> \<open>student_database.json: student id to record\<close>

type_synonym row = "string list"
  \<comment> \<open>one CSV row: name, roll number, branch, section, date, time\<close>

definition row_name :: "row \<Rightarrow> string" where
  "row_name r = (case r of [] \<Rightarrow> [] | n # _ \<Rightarrow> n)"

datatype status = unknown | correct_class | wrong_class

record result =
  res_bbox :: "int \<times> int \<times> int \<times> int"
  res_name :: string
  res_roll_no :: string
  res_color :: "nat \<times> nat \<times> nat"
  res_status :: status
  res_confidence :: real
  res_marked :: "bool option"
  res_correct_class :: "(string \<times> string) option"

datatype message =
    MsgNoStudentsWarning
  | MsgClassCount nat
  | MsgCreatedCsv
  | MsgWriteError
  | MsgMarked string string
  | MsgCannotRead
  | MsgStoppingByUser
  | MsgStoppedCtrlC
  | MsgRecognitionError
  | MsgTotalPresent nat

text \<open>
  The program variables of the main loop, followed by what the script does to the outside:
  the rows of attendance.csv, the number of times the file was opened for appending, and
  the lines printed (only the warning, error, marking and summary lines are kept). The last
  two fields are history variables: \<open>detected_at\<close> lists the values of \<open>frame_count\<close> at
  which \<open>detectMultiScale\<close> was called, \<open>appended\<close> lists every row ever passed to
  \<open>attendance_queue.append\<close>.
\<close>

record session =
  marked_names :: "string set"
  recognition_cooldown :: "(string \<times> nat) list"
  attendance_queue :: "row list"
  frame_count :: nat
  last_detection_results :: "result list"
  camera_open :: bool
  csv_rows :: "row list"
  csv_opens :: nat
  stdout :: "message list"
  detected_at :: "nat list"
  appended :: "row list"

record class_context =
  ctx_branch :: string
  ctx_section :: string
  label_map :: "(int \<times> string) list"
  name_to_info :: "(string \<times> info) list"

subsection \<open>batch_write_attendance\<close>

text \<open>
  The outcome of one attempt to write: the file opens and every row is written, or
  \<open>open\<close> raises, or the \<open>k\<close>-th call of \<open>writerow\<close> (counted from 0) raises, or every
  \<open>writerow\<close> returns and the error comes when the \<open>with\<close> block closes the file (the
  rows were in the buffer only, and none of them is in the file).
\<close>

datatype io = IoOk | OpenFails | RowFails nat | CloseFails

fun drain :: "nat option \<Rightarrow> row list \<Rightarrow> row list \<times> row list \<times> bool" where
  \<comment> \<open>\<open>while queue: writer.writerow(queue.popleft())\<close>: the queue left, the rows
      written, and whether \<open>writerow\<close> raised. The row is taken off the queue before
      it is written.\<close>
  "drain fault [] = ([], [], False)"
| "drain (Some 0) (r # q) = (q, [], True)"
| "drain (Some (Suc k)) (r # q) = (case drain (Some k) q of (q', w, e) \<Rightarrow> (q', r # w, e))"
| "drain None (r # q) = (case drain None q of (q', w, e) \<Rightarrow> (q', r # w, e))"

definition batch_write_attendance :: "io \<Rightarrow> session \<Rightarrow> session" where
  "batch_write_attendance outcome s =
     (if attendance_queue s = [] then s
      else case outcome of
        OpenFails \<Rightarrow>
          s\<lparr>csv_opens := csv_opens s + 1, stdout := stdout s @ [MsgWriteError]\<rparr>
      | CloseFails \<Rightarrow>
          s\<lparr>attendance_queue := [],
            csv_opens := csv_opens s + 1,
            stdout := stdout s @ [MsgWriteError]\<rparr>
      | _ \<Rightarrow>
          (case drain (case outcome of RowFails k \<Rightarrow> Some k | _ \<Rightarrow> None) (attendance_queue s) of
             (q', w, e) \<Rightarrow>
               s\<lparr>attendance_queue := q',
                 csv_rows := csv_rows s @ w,
                 csv_opens := csv_opens s + 1,
                 stdout := stdout s @ (if e then [MsgWriteError] else [])\<rparr>))"

subsection \<open>Building the roster index (lines 87 to 135 of the script)\<close>

definition load_student_database :: "student_db option \<Rightarrow> student_db" where
  \<comment> \<open>\<open>None\<close>: the file is missing or is not readable JSON\<close>
  "load_student_database file = (case file of None \<Rightarrow> [] | Some db \<Rightarrow> db)"

definition placeholder :: info where
  "placeholder = [(''rollNo'', ''N/A''), (''branch'', ''UNKNOWN''), (''section'', ''UNKNOWN'')]"

fun search_by_name :: "(string \<Rightarrow> string) \<Rightarrow> student_db \<Rightarrow> string \<Rightarrow> info option" where
  \<comment> \<open>the \<open>for sid, info in student_db.items()\<close> loop with its \<open>break\<close>;
      \<open>lower\<close> is \<open>str.lower\<close>\<close>
  "search_by_name lower [] person_name = None"
| "search_by_name lower ((sid, info) # rest) person_name =
     (if lower (dict_get info ''name'' []) = lower person_name then Some info
      else search_by_name lower rest person_name)"

definition student_info_for :: "(string \<Rightarrow> string) \<Rightarrow> student_db \<Rightarrow> string \<Rightarrow> info" where
  \<comment> \<open>the value stored in \<open>name_to_info[person_name]\<close>\<close>
  "student_info_for lower student_db person_name =
     (let student_id = replace_space (lower person_name) in
      case map_of student_db student_id of
        Some info \<Rightarrow> info
      | None \<Rightarrow>
          (case search_by_name lower student_db person_name of
             Some info \<Rightarrow> info
           | None \<Rightarrow> placeholder))"

fun load_labels ::
  "(string \<Rightarrow> string) \<Rightarrow> student_db \<Rightarrow> (string \<times> bool) list \<Rightarrow>
   (int \<times> string) list \<times> (string \<times> info) list \<times> int \<Rightarrow>
   (int \<times> string) list \<times> (string \<times> info) list \<times> int" where
  \<comment> \<open>the loop over \<open>os.listdir(Config.DATASET_PATH)\<close>; each entry comes with
      the answer of \<open>os.path.isdir\<close>\<close>
  "load_labels lower student_db [] acc = acc"
| "load_labels lower student_db ((person_name, is_dir) # rest) (lm, n2i, label_id) =
     (if is_dir
      then load_labels lower student_db rest
             (dict_set label_id person_name lm,
              dict_set person_name (student_info_for lower student_db person_name) n2i,
              label_id + 1)
      else load_labels lower student_db rest (lm, n2i, label_id))"

definition class_students :: "string \<Rightarrow> string \<Rightarrow> (string \<times> info) list \<Rightarrow> (string \<times> info) list" where
  "class_students br sec n2i =
     filter (\<lambda>(name, info). map_of info ''branch'' = Some br \<and> map_of info ''section'' = Some sec) n2i"

definition lookup :: "class_context \<Rightarrow> int \<Rightarrow> string \<times> string \<times> string \<times> string" where
  \<comment> \<open>lines 233 to 237: the name, roll number, branch and section the loop uses for a
      predicted label\<close>
  "lookup ctx label =
     (let name = dict_get (label_map ctx) label ''Unknown'';
          student_info = dict_get (name_to_info ctx) name []
      in (name,
          dict_get student_info ''rollNo'' ''N/A'',
          dict_get student_info ''branch'' ''UNKNOWN'',
          dict_get student_info ''section'' ''UNKNOWN''))"

subsection \<open>Start of the script (lines 42 to 184)\<close>

record environment =
  str_lower :: "string \<Rightarrow> string"
  str_upper :: "string \<Rightarrow> string"
  argv :: "string list"
  db_file :: "student_db option"
  trainer_model_exists :: bool
  trainer_model_reads :: bool
  cascade_loads :: bool
  dataset_listing :: "(string \<times> bool) list option"
  attendance_csv :: "row list option"
  camera_opens :: bool

datatype startup_error =
    MissingArguments
  | ModelNotFound
  | ModelLoadError
  | CascadeLoadError
  | DatasetNotFound
  | CameraOpenError

definition csv_header :: row where
  "csv_header = [''Name'', ''RollNo'', ''Branch'', ''Section'', ''Date'', ''Time'']"

definition startup :: "environment \<Rightarrow> startup_error + (class_context \<times> session)" where
  \<comment> \<open>every \<open>sys.exit(1)\<close> is an \<open>Inl\<close>; \<open>Inr\<close> is the state in which the main loop
      is entered\<close>
  "startup env =
     (if length (argv env) < 3 then Inl MissingArguments
      else
        let br = str_upper env (argv env ! 1);
            sec = str_upper env (argv env ! 2);
            student_db = load_student_database (db_file env)
        in
        if \<not> trainer_model_exists env then Inl ModelNotFound
        else if \<not> trainer_model_reads env then Inl ModelLoadError
        else if \<not> cascade_loads env then Inl CascadeLoadError
        else case dataset_listing env of
          None \<Rightarrow> Inl DatasetNotFound
        | Some listing \<Rightarrow>
            (case load_labels (str_lower env) student_db listing ([], [], 0) of
               (lm, n2i, label_id) \<Rightarrow>
                 let cs = class_students br sec n2i;
                     out1 = (if cs = [] then [MsgNoStudentsWarning] else [MsgClassCount (length cs)]);
                     out2 = (case attendance_csv env of None \<Rightarrow> [MsgCreatedCsv] | Some rows \<Rightarrow> []);
                     file = (case attendance_csv env of None \<Rightarrow> [csv_header] | Some rows \<Rightarrow> rows)
                 in
                 if \<not> camera_opens env then Inl CameraOpenError
                 else Inr (\<lparr>ctx_branch = br, ctx_section = sec, label_map = lm, name_to_info = n2i\<rparr>,
                           \<lparr>marked_names = {},
                            recognition_cooldown = [],
                            attendance_queue = [],
                            frame_count = 0,
                            last_detection_results = [],
                            camera_open = True,
                            csv_rows = file,
                            csv_opens = 0,
                            stdout = out1 @ out2,
                            detected_at = [],
                            appended = []\<rparr>)))"

subsection \<open>The main loop (lines 186 to 328)\<close>

record face =
  bbox :: "int \<times> int \<times> int \<times> int"
  prediction :: "(int \<times> real) option"
  now_date :: string
  now_time :: string

text \<open>
  \<open>prediction = None\<close>: \<open>recognizer.predict\<close> raised. \<open>now_date\<close> and \<open>now_time\<close>
  are what \<open>datetime.now()\<close> formats to if this face is marked.
\<close>

datatype raised = KeyboardInterrupt | OtherException

datatype fault_point = AtRead | BeforeDetect | AtDetect | InMarking nat | AtDisplay

text \<open>
  One iteration's inputs. \<open>fault\<close> is an exception raised in the loop body outside the
  guarded calls: in \<open>cam.read\<close>, in \<open>cv2.flip\<close> or \<open>cvtColor\<close>, in \<open>detectMultiScale\<close>
  (reached only on a sampled frame), or between the detections and the key check (drawing,
  \<open>imshow\<close>, \<open>waitKey\<close>). \<open>InMarking k\<close> is an exception (a Ctrl+C, say) that arrives
  while face number \<open>k\<close> of a sampled frame, counted from 0, is being marked: after
  \<open>attendance_queue.append\<close> (line 260) and before \<open>marked_names.add\<close> (line 262); it
  cannot arrive there when that face does not reach line 260. \<open>wait_key\<close> is the value of \<open>cv2.waitKey\<close>, which is -1 when
  no key was pressed; \<open>& 0xFF\<close> on a Python integer is \<open>mod 256\<close>. \<open>write_outcome\<close> is what
  happens if this iteration writes the queue.
\<close>

record frame_input =
  ret :: bool
  current_time :: nat
  fault :: "(fault_point \<times> raised) option"
  faces :: "face list"
  wait_key :: int
  write_outcome :: io

datatype exit_path = CameraReadFailure | UserStop | Interrupted | FatalError

definition exit_of :: "raised \<Rightarrow> exit_path" where
  "exit_of x = (case x of KeyboardInterrupt \<Rightarrow> Interrupted | OtherException \<Rightarrow> FatalError)"

definition process_face :: "class_context \<Rightarrow> nat \<Rightarrow> face \<Rightarrow> session \<Rightarrow> session" where
  \<comment> \<open>the body of \<open>for (x, y, w, h) in faces\<close>\<close>
  "process_face ctx now f s =
     (case prediction f of
        None \<Rightarrow> s
      | Some (label, confidence) \<Rightarrow>
          let res = \<lparr>res_bbox = bbox f, res_name = ''Unknown'', res_roll_no = [],
                     res_color = (0, 0, 255), res_status = unknown,
                     res_confidence = confidence, res_marked = None,
                     res_correct_class = None\<rparr>
          in
          if confidence < RECOGNITION_CONFIDENCE_THRESHOLD then
            (case lookup ctx label of
               (name, roll_no, student_branch, student_section) \<Rightarrow>
                 let res1 = res\<lparr>res_name := name, res_roll_no := roll_no\<rparr> in
                 if student_branch = ctx_branch ctx \<and> student_section = ctx_section ctx then
                   let res2 = res1\<lparr>res_color := (0, 255, 0), res_status := correct_class\<rparr>;
                       s1 = (if name \<notin> marked_names s then
                               s\<lparr>attendance_queue := attendance_queue s @
                                    [[name, roll_no, ctx_branch ctx, ctx_section ctx, now_date f, now_time f]],
                                 marked_names := insert name (marked_names s),
                                 recognition_cooldown := dict_set name now (recognition_cooldown s),
                                 stdout := stdout s @ [MsgMarked name roll_no],
                                 appended := appended s @
                                    [[name, roll_no, ctx_branch ctx, ctx_section ctx, now_date f, now_time f]]\<rparr>
                             else s);
                       res3 = res2\<lparr>res_marked := Some (name \<in> marked_names s1)\<rparr>
                   in s1\<lparr>last_detection_results := last_detection_results s1 @ [res3]\<rparr>
                 else
                   s\<lparr>last_detection_results := last_detection_results s @
                       [res1\<lparr>res_color := (0, 165, 255), res_status := wrong_class,
                             res_correct_class := Some (student_branch, student_section)\<rparr>]\<rparr>)
          else s\<lparr>last_detection_results := last_detection_results s @ [res]\<rparr>)"

definition process_faces :: "class_context \<Rightarrow> nat \<Rightarrow> face list \<Rightarrow> session \<Rightarrow> session" where
  "process_faces ctx now fs s = foldl (\<lambda>s f. process_face ctx now f s) s fs"

definition raised_at :: "fault_point \<Rightarrow> frame_input \<Rightarrow> raised option" where
  "raised_at p fi =
     (case fault fi of None \<Rightarrow> None | Some (q, x) \<Rightarrow> if q = p then Some x else None)"

definition marking_fault :: "frame_input \<Rightarrow> (nat \<times> raised) option" where
  "marking_fault fi =
     (case fault fi of
        None \<Rightarrow> None
      | Some (q, x) \<Rightarrow> (case q of InMarking k \<Rightarrow> Some (k, x) | _ \<Rightarrow> None))"

definition begin_marking :: "class_context \<Rightarrow> face \<Rightarrow> session \<Rightarrow> session option" where
  \<comment> \<open>the body of the face loop up to and including line 260; \<open>None\<close> when this face
      does not reach that line\<close>
  "begin_marking ctx f s =
     (case prediction f of
        None \<Rightarrow> None
      | Some (label, confidence) \<Rightarrow>
          if confidence < RECOGNITION_CONFIDENCE_THRESHOLD then
            (case lookup ctx label of
               (name, roll_no, student_branch, student_section) \<Rightarrow>
                 if student_branch = ctx_branch ctx \<and> student_section = ctx_section ctx
                    \<and> name \<notin> marked_names s
                 then Some (s\<lparr>attendance_queue := attendance_queue s @
                                 [[name, roll_no, ctx_branch ctx, ctx_section ctx, now_date f, now_time f]],
                               appended := appended s @
                                 [[name, roll_no, ctx_branch ctx, ctx_section ctx, now_date f, now_time f]]\<rparr>)
                 else None)
          else None)"

definition interrupted_marking ::
  "class_context \<Rightarrow> frame_input \<Rightarrow> session \<Rightarrow> (raised \<times> session) option" where
  \<comment> \<open>the faces before number \<open>k\<close> are processed in full, face \<open>k\<close> up to line 260\<close>
  "interrupted_marking ctx fi s =
     (case marking_fault fi of
        None \<Rightarrow> None
      | Some (k, x) \<Rightarrow>
          if k < length (faces fi)
          then (case begin_marking ctx (faces fi ! k)
                       (process_faces ctx (current_time fi) (take k (faces fi)) s) of
                  None \<Rightarrow> None
                | Some s' \<Rightarrow> Some (x, s'))
          else None)"

definition loop_body :: "class_context \<Rightarrow> frame_input \<Rightarrow> session \<Rightarrow> exit_path option \<times> session" where
  \<comment> \<open>one iteration of \<open>while True\<close>; \<open>Some e\<close> leaves the loop\<close>
  "loop_body ctx fi s =
     (case raised_at AtRead fi of
        Some x \<Rightarrow> (Some (exit_of x), s)
      | None \<Rightarrow>
         (if \<not> ret fi then (Some CameraReadFailure, s\<lparr>stdout := stdout s @ [MsgCannotRead]\<rparr>)
          else
            let s1 = s\<lparr>frame_count := frame_count s + 1\<rparr>;
                should_process = (frame_count s1 mod process_every_n_frames = 0)
            in
            (case raised_at BeforeDetect fi of
               Some x \<Rightarrow> (Some (exit_of x), s1)
             | None \<Rightarrow>
                (let s2 = (if should_process
                           then s1\<lparr>detected_at := detected_at s1 @ [frame_count s1]\<rparr>
                           else s1)
                 in
                 (case (if should_process then raised_at AtDetect fi else None) of
                    Some x \<Rightarrow> (Some (exit_of x), s2)
                  | None \<Rightarrow>
                     (case (if should_process
                            then interrupted_marking ctx fi (s2\<lparr>last_detection_results := []\<rparr>)
                            else None) of
                        Some (x, s') \<Rightarrow> (Some (exit_of x), s')
                      | None \<Rightarrow>
                         (let s3 = (if should_process
                                    then process_faces ctx (current_time fi) (faces fi)
                                           (s2\<lparr>last_detection_results := []\<rparr>)
                                    else s2)
                          in
                          (case raised_at AtDisplay fi of
                             Some x \<Rightarrow> (Some (exit_of x), s3)
                           | None \<Rightarrow>
                              (let key = wait_key fi mod 256 in
                               if key = 113 \<or> key = 81
                               then (Some UserStop, s3\<lparr>stdout := stdout s3 @ [MsgStoppingByUser]\<rparr>)
                               else if frame_count s3 mod BATCH_WRITE_INTERVAL = 0
                                       \<and> attendance_queue s3 \<noteq> []
                               then (None, batch_write_attendance (write_outcome fi) s3)
                               else (None, s3))))))))))"

fun loop :: "class_context \<Rightarrow> frame_input list \<Rightarrow> session \<Rightarrow> exit_path option \<times> session" where
  \<comment> \<open>the loop over the frames supplied; \<open>None\<close>: still running after the last of them\<close>
  "loop ctx [] s = (None, s)"
| "loop ctx (fi # rest) s =
     (case loop_body ctx fi s of
        (Some e, s') \<Rightarrow> (Some e, s')
      | (None, s') \<Rightarrow> loop ctx rest s')"

subsection \<open>Leaving the loop (lines 330 to 362)\<close>

definition session_end :: "exit_path \<Rightarrow> io \<Rightarrow> session \<Rightarrow> session" where
  \<comment> \<open>the \<open>except\<close> clauses, the \<open>finally\<close> block and the summary\<close>
  "session_end e final_outcome s =
     (let s1 = (case e of
                  Interrupted \<Rightarrow> s\<lparr>stdout := stdout s @ [MsgStoppedCtrlC]\<rparr>
                | FatalError \<Rightarrow> s\<lparr>stdout := stdout s @ [MsgRecognitionError]\<rparr>
                | _ \<Rightarrow> s);
          s2 = (if attendance_queue s1 \<noteq> [] then batch_write_attendance final_outcome s1 else s1);
          s3 = s2\<lparr>camera_open := False\<rparr>
      in s3\<lparr>stdout := stdout s3 @ [MsgTotalPresent (card (marked_names s3))]\<rparr>)"

definition run_session ::
  "class_context \<Rightarrow> frame_input list \<Rightarrow> io \<Rightarrow> session \<Rightarrow> (exit_path \<times> session) option" where
  \<comment> \<open>\<open>None\<close>: the loop has not ended on these frames\<close>
  "run_session ctx frames final_outcome s =
     (case loop ctx frames s of
        (None, s') \<Rightarrow> None
      | (Some e, s') \<Rightarrow> Some (e, session_end e final_outcome s'))"

subsection \<open>The start command (start_attendance in app.py, AttendanceValidator in validators.py)\<close>











subsection \<open>Predicates used in the properties\<close>

definition marked_inv :: "session \<Rightarrow> bool" where
  \<comment> \<open>the names of the rows ever appended are pairwise different and are exactly the
      marked names\<close>
  "marked_inv s \<longleftrightarrow>
     distinct (map row_name (appended s)) \<and> set (map row_name (appended s)) = marked_names s"

definition torn_inv :: "session \<Rightarrow> bool" where
  \<comment> \<open>the state in the middle of a marking: the last appended row is the one whose name
      is not marked yet\<close>
  "torn_inv s \<longleftrightarrow>
     distinct (map row_name (appended s)) \<and> appended s \<noteq> []
     \<and> set (map row_name (butlast (appended s))) = marked_names s"

definition rows_inv :: "row list \<Rightarrow> session \<Rightarrow> bool" where
  \<comment> \<open>the log followed by the queue is \<open>base\<close> followed by the rows ever appended\<close>
  "rows_inv base s \<longleftrightarrow> csv_rows s @ attendance_queue s = base @ appended s"

definition quiet :: "frame_input \<Rightarrow> bool" where
  \<comment> \<open>a frame that is read, raises nothing and is not answered with q or Q\<close>
  "quiet fi \<longleftrightarrow>
     ret fi \<and> fault fi = None \<and> wait_key fi mod 256 \<noteq> 113 \<and> wait_key fi mod 256 \<noteq> 81"

subsection \<open>An example session\<close>

text \<open>
  Two students in the database, three folders in the dataset (Carol is not in the
  database), a session for CSE-A. The second frame is sampled and shows Alice twice, Bob
  once and one face that is too far from every trained one.
\<close>

definition example_db :: student_db where
  "example_db =
     [(''alice'', [(''name'', ''Alice''), (''rollNo'', ''CSE001''), (''branch'', ''CSE''), (''section'', ''A'')]),
      (''s2'', [(''name'', ''BOB''), (''rollNo'', ''ECE002''), (''branch'', ''ECE''), (''section'', ''B'')])]"

definition example_env :: environment where
  "example_env =
     \<lparr>str_lower = ascii_lower, str_upper = ascii_upper,
      argv = [''recognize_attendance.py'', ''cse'', ''a''],
      db_file = Some example_db,
      trainer_model_exists = True,
      trainer_model_reads = True,
      cascade_loads = True,
      dataset_listing = Some [(''Alice'', True), (''notes.txt'', False), (''Bob'', True), (''Carol'', True)],
      attendance_csv = None,
      camera_opens = True\<rparr>"

definition example_ctx :: class_context where
  "example_ctx =
     \<lparr>ctx_branch = ''CSE'', ctx_section = ''A'',
      label_map = [(0, ''Alice''), (1, ''Bob''), (2, ''Carol'')],
      name_to_info =
        [(''Alice'', [(''name'', ''Alice''), (''rollNo'', ''CSE001''), (''branch'', ''CSE''), (''section'', ''A'')]),
         (''Bob'', [(''name'', ''BOB''), (''rollNo'', ''ECE002''), (''branch'', ''ECE''), (''section'', ''B'')]),
         (''Carol'', [(''rollNo'', ''N/A''), (''branch'', ''UNKNOWN''), (''section'', ''UNKNOWN'')])]\<rparr>"

definition example_start :: session where
  "example_start =
     \<lparr>marked_names = {}, recognition_cooldown = [], attendance_queue = [], frame_count = 0,
      last_detection_results = [], camera_open = True,
      csv_rows = [[''Name'', ''RollNo'', ''Branch'', ''Section'', ''Date'', ''Time'']],
      csv_opens = 0, stdout = [MsgClassCount 1, MsgCreatedCsv], detected_at = [], appended = []\<rparr>"

definition example_face :: "int \<Rightarrow> real \<Rightarrow> string \<Rightarrow> face" where
  "example_face label confidence t =
     \<lparr>bbox = (10, 20, 120, 120), prediction = Some (label, confidence),
      now_date = ''2024-01-15'', now_time = t\<rparr>"

definition example_frame :: "face list \<Rightarrow> frame_input" where
  "example_frame fs =
     \<lparr>ret = True, current_time = 0, fault = None, faces = fs, wait_key = -1, write_outcome = IoOk\<rparr>"

definition example_frames :: "frame_input list" where
  "example_frames =
     [example_frame [],
      example_frame [example_face 0 40 ''09:00:01'', example_face 0 50 ''09:00:02'',
                     example_face 1 30 ''09:00:03'', example_face 0 80 ''09:00:04'']]"

definition example_stop :: frame_input where
  "example_stop = (example_frame [])\<lparr>ret := False\<rparr>"

definition empty_class_env :: environment where
  "empty_class_env = example_env\<lparr>argv := [''recognize_attendance.py'', ''mech'', ''b'']\<rparr>"

definition torn_frames :: "frame_input list" where
  \<comment> \<open>Ctrl+C while Alice, the first face of the second frame, is being marked\<close>
  "torn_frames =
     [example_frame [],
      (example_frame [example_face 0 40 ''09:00:01''])\<lparr>fault := Some (InMarking 0, KeyboardInterrupt)\<rparr>]"



definition example_queued :: session where
  "example_queued =
     example_start\<lparr>attendance_queue :=
       [[''Alice'', ''CSE001'', ''CSE'', ''A'', ''2024-01-15'', ''09:00:01''],
        [''Dev'', ''CSE007'', ''CSE'', ''A'', ''2024-01-15'', ''09:00:09'']]\<rparr>"

section \<open>Properties\<close>

subsection \<open>Auxiliary facts\<close>

lemma drain_None: "drain None q = ([], q, False)"
  by (induction q) auto

lemma map_of_dict_set: "map_of (dict_set k v d) = (map_of d)(k \<mapsto> v)"
  by (induction d) auto

lemma search_by_name_find:
  "search_by_name low db p =
     map_option snd (find (\<lambda>(sid, info). low (dict_get info ''name'' []) = low p) db)"
  by (induction db) auto

lemma load_labels_names:
  "load_labels low db listing (lm, n2i, k) = (lm', n2i', k') \<Longrightarrow>
   map_of n2i' name =
     (if (name, True) \<in> set listing then Some (student_info_for low db name) else map_of n2i name)"
proof (induction listing arbitrary: lm n2i k)
  case Nil
  then show ?case by simp
next
  case (Cons e listing)
  obtain p d where e: "e = (p, d)" by (cases e)
  show ?case
  proof (cases d)
    case True
    with Cons.prems e
    have "load_labels low db listing
            (dict_set k p lm, dict_set p (student_info_for low db p) n2i, k + 1) = (lm', n2i', k')"
      by simp
    from Cons.IH [OF this] e True show ?thesis
      by (auto simp: map_of_dict_set)
  next
    case False
    with Cons.prems e have "load_labels low db listing (lm, n2i, k) = (lm', n2i', k')"
      by simp
    from Cons.IH [OF this] e False show ?thesis
      by auto
  qed
qed

lemma load_labels_labels:
  "load_labels low db listing (lm, n2i, k) = (lm', n2i', k') \<Longrightarrow> map_of lm' label = Some name \<Longrightarrow>
   map_of lm label = Some name \<or> (name, True) \<in> set listing"
proof (induction listing arbitrary: lm n2i k)
  case Nil
  then show ?case by simp
next
  case (Cons e listing)
  obtain p d where e: "e = (p, d)" by (cases e)
  show ?case
  proof (cases d)
    case True
    with Cons.prems e
    have "load_labels low db listing
            (dict_set k p lm, dict_set p (student_info_for low db p) n2i, k + 1) = (lm', n2i', k')"
      by simp
    from Cons.IH [OF this Cons.prems(2)] e True show ?thesis
      by (auto simp: map_of_dict_set split: if_splits)
  next
    case False
    with Cons.prems e have "load_labels low db listing (lm, n2i, k) = (lm', n2i', k')"
      by simp
    from Cons.IH [OF this Cons.prems(2)] e False show ?thesis
      by auto
  qed
qed


lemma process_face_inv: "marked_inv s \<Longrightarrow> marked_inv (process_face ctx now f s)"
  by (auto simp: process_face_def marked_inv_def row_name_def Let_def split: option.splits prod.splits)

lemma process_faces_inv: "marked_inv s \<Longrightarrow> marked_inv (process_faces ctx now fs s)"
  unfolding process_faces_def
  by (induction fs arbitrary: s) (auto simp: process_face_inv)

lemma batch_write_marked [simp]:
  "marked_names (batch_write_attendance io s) = marked_names s"
  "appended (batch_write_attendance io s) = appended s"
  "frame_count (batch_write_attendance io s) = frame_count s"
  "detected_at (batch_write_attendance io s) = detected_at s"
  by (auto simp: batch_write_attendance_def split: io.splits prod.splits)

lemma marked_inv_upd [simp]:
  "marked_inv (s\<lparr>stdout := a\<rparr>) = marked_inv s"
  "marked_inv (s\<lparr>frame_count := b\<rparr>) = marked_inv s"
  "marked_inv (s\<lparr>detected_at := c\<rparr>) = marked_inv s"
  "marked_inv (s\<lparr>last_detection_results := d\<rparr>) = marked_inv s"
  "marked_inv (s\<lparr>camera_open := e\<rparr>) = marked_inv s"
  "marked_inv (batch_write_attendance io s) = marked_inv s"
  by (simp_all add: marked_inv_def)

lemma begin_marking_torn: "marked_inv s \<Longrightarrow> begin_marking ctx f s = Some s' \<Longrightarrow> torn_inv s'"
  by (auto simp: begin_marking_def marked_inv_def torn_inv_def row_name_def
           split: option.splits prod.splits if_splits)

lemma interrupted_marking_torn:
  "marked_inv s \<Longrightarrow> interrupted_marking ctx fi s = Some (x, s') \<Longrightarrow> torn_inv s'"
  by (auto simp: interrupted_marking_def
           split: option.splits prod.splits if_splits
           intro: begin_marking_torn [OF process_faces_inv])

lemma interrupted_marking_calm:
  "marking_fault fi = None \<Longrightarrow> interrupted_marking ctx fi s = None"
  by (simp add: interrupted_marking_def)

lemma loop_body_inv_calm:
  "marked_inv s \<Longrightarrow> marking_fault fi = None \<Longrightarrow> marked_inv (snd (loop_body ctx fi s))"
  by (simp add: loop_body_def Let_def process_faces_inv interrupted_marking_calm
           split: option.splits)

lemma loop_body_inv:
  "marked_inv s \<Longrightarrow>
   marked_inv (snd (loop_body ctx fi s))
   \<or> (fst (loop_body ctx fi s) \<noteq> None \<and> torn_inv (snd (loop_body ctx fi s)))"
proof (cases "marking_fault fi")
  case None
  assume "marked_inv s"
  from loop_body_inv_calm [OF this None] show ?thesis by blast
next
  case (Some kx)
  assume inv: "marked_inv s"
  have torn: "torn_inv s'"
    if "interrupted_marking ctx fi (t\<lparr>last_detection_results := []\<rparr>) = Some (x, s')" "marked_inv t"
    for t x s'
    using interrupted_marking_torn [OF _ that(1)] that(2) by simp
  from inv show ?thesis
    by (auto simp: loop_body_def Let_def process_faces_inv split: option.splits dest!: torn)
qed

lemma loop_inv:
  "marked_inv s \<Longrightarrow>
   marked_inv (snd (loop ctx frames s))
   \<or> (fst (loop ctx frames s) \<noteq> None \<and> torn_inv (snd (loop ctx frames s)))"
proof (induction frames arbitrary: s)
  case Nil
  then show ?case by simp
next
  case (Cons fi frames)
  obtain x s1 where b: "loop_body ctx fi s = (x, s1)"
    by (cases "loop_body ctx fi s")
  show ?case
  proof (cases x)
    case None
    with loop_body_inv [OF Cons.prems, of ctx fi] b have "marked_inv s1" by simp
    from Cons.IH [OF this] b None show ?thesis by simp
  next
    case (Some e)
    with loop_body_inv [OF Cons.prems, of ctx fi] b show ?thesis by simp
  qed
qed

lemma loop_inv_calm:
  "marked_inv s \<Longrightarrow> \<forall>fi \<in> set frames. marking_fault fi = None \<Longrightarrow>
   marked_inv (snd (loop ctx frames s))"
proof (induction frames arbitrary: s)
  case Nil
  then show ?case by simp
next
  case (Cons fi frames)
  from Cons.prems have "marked_inv (snd (loop_body ctx fi s))"
    by (simp add: loop_body_inv_calm)
  with Cons.prems show ?case
    by (cases "loop_body ctx fi s") (auto split: option.splits intro: Cons.IH)
qed

lemma torn_inv_card: "torn_inv s \<Longrightarrow> Suc (card (marked_names s)) = length (appended s)"
proof -
  assume t: "torn_inv s"
  then have "distinct (butlast (map row_name (appended s)))"
    by (simp add: torn_inv_def distinct_butlast)
  then have "distinct (map row_name (butlast (appended s)))"
    by (simp add: map_butlast)
  then have "card (set (map row_name (butlast (appended s)))) = length (butlast (appended s))"
    by (metis distinct_card length_map)
  with t show ?thesis
    by (simp add: torn_inv_def)
qed

lemma startup_inv: "startup env = Inr (ctx, s0) \<Longrightarrow> marked_inv s0"
  by (auto simp: startup_def Let_def marked_inv_def split: if_splits option.splits prod.splits)

lemma marked_inv_card: "marked_inv s \<Longrightarrow> card (marked_names s) = length (appended s)"
  unfolding marked_inv_def by (metis distinct_card length_map)



lemma rows_inv_upd [simp]:
  "rows_inv base (s\<lparr>stdout := a\<rparr>) = rows_inv base s"
  "rows_inv base (s\<lparr>frame_count := b\<rparr>) = rows_inv base s"
  "rows_inv base (s\<lparr>detected_at := c\<rparr>) = rows_inv base s"
  "rows_inv base (s\<lparr>last_detection_results := d\<rparr>) = rows_inv base s"
  "rows_inv base (batch_write_attendance IoOk s) = rows_inv base s"
  by (simp_all add: rows_inv_def batch_write_attendance_def drain_None)





lemma session_end_fields [simp]:
  "marked_names (session_end e io s) = marked_names s"
  "appended (session_end e io s) = appended s"
  by (simp_all add: session_end_def Let_def split: exit_path.splits)

lemma session_end_last: "last (stdout (session_end e io s)) = MsgTotalPresent (card (marked_names s))"
  by (simp add: session_end_def Let_def split: exit_path.splits)

lemma process_face_card:
  "finite (marked_names s) \<Longrightarrow> card (marked_names s) = length (appended s) \<Longrightarrow>
   finite (marked_names (process_face ctx now f s))
   \<and> card (marked_names (process_face ctx now f s)) = length (appended (process_face ctx now f s))"
  by (auto simp: process_face_def Let_def split: option.splits prod.splits)

lemma process_face_frame [simp]:
  "frame_count (process_face ctx now f s) = frame_count s"
  "detected_at (process_face ctx now f s) = detected_at s"
  by (auto simp: process_face_def Let_def split: option.splits prod.splits)

lemma process_faces_frame [simp]:
  "frame_count (process_faces ctx now fs s) = frame_count s"
  "detected_at (process_faces ctx now fs s) = detected_at s"
  unfolding process_faces_def
  by (induction fs arbitrary: s) auto

lemma loop_body_quiet:
  assumes "quiet fi"
  shows "fst (loop_body ctx fi s) = None"
    and "frame_count (snd (loop_body ctx fi s)) = Suc (frame_count s)"
    and "detected_at (snd (loop_body ctx fi s)) =
           detected_at s @ filter (\<lambda>i. i mod process_every_n_frames = 0) [Suc (frame_count s)]"
  using assms
  by (simp_all add: quiet_def loop_body_def raised_at_def interrupted_marking_def
        marking_fault_def Let_def)

lemma loop_quiet:
  assumes "\<forall>fi \<in> set frames. quiet fi"
  shows "fst (loop ctx frames s) = None
       \<and> frame_count (snd (loop ctx frames s)) = frame_count s + length frames
       \<and> detected_at (snd (loop ctx frames s)) =
           detected_at s @ filter (\<lambda>i. i mod process_every_n_frames = 0)
             [Suc (frame_count s) ..< Suc (frame_count s + length frames)]"
  using assms
proof (induction frames arbitrary: s)
  case Nil
  then show ?case by simp
next
  case (Cons fi frames)
  obtain x s1 where b: "loop_body ctx fi s = (x, s1)"
    by (cases "loop_body ctx fi s")
  from Cons.prems have q: "quiet fi" by simp
  from loop_body_quiet [OF q, of ctx s] b
  have x: "x = None" and fc: "frame_count s1 = Suc (frame_count s)"
    and da: "detected_at s1 = detected_at s @ filter (\<lambda>i. i mod process_every_n_frames = 0) [Suc (frame_count s)]"
    by simp_all
  from Cons.prems have "\<forall>fi \<in> set frames. quiet fi" by simp
  from Cons.IH [OF this, of s1] b x fc da
  show ?case
    by (simp add: upt_conv_Cons [of "Suc (frame_count s)"] del: upt_Suc)
qed

lemma loop_append:
  "loop ctx (xs @ ys) s =
     (case loop ctx xs s of (Some e, s') \<Rightarrow> (Some e, s') | (None, s') \<Rightarrow> loop ctx ys s')"
  by (induction xs arbitrary: s) (auto split: prod.splits option.splits)

lemma count_multiples: "0 < k \<Longrightarrow> length (filter (\<lambda>i. i mod k = 0) [Suc 0 ..< Suc n]) = n div k"
  by (induction n) (auto simp: div_Suc)

lemma loop_body_read_failure:
  "\<not> ret fi \<Longrightarrow> fault fi = None \<Longrightarrow>
   loop_body ctx fi s = (Some CameraReadFailure, s\<lparr>stdout := stdout s @ [MsgCannotRead]\<rparr>)"
  by (simp add: loop_body_def raised_at_def)

lemma every_exit_path_arises:
  "fst (loop_body example_ctx ((example_frame [])\<lparr>ret := False\<rparr>) example_start) = Some CameraReadFailure
   \<and> fst (loop_body example_ctx ((example_frame [])\<lparr>wait_key := 113\<rparr>) example_start) = Some UserStop
   \<and> fst (loop_body example_ctx ((example_frame [])\<lparr>fault := Some (AtRead, KeyboardInterrupt)\<rparr>) example_start)
       = Some Interrupted
   \<and> fst (loop_body example_ctx ((example_frame [])\<lparr>fault := Some (AtDisplay, OtherException)\<rparr>) example_start)
       = Some FatalError"
  by code_simp

subsection \<open>The claims\<close>





text \<open>
  Beside C2: the recognition script itself, when it is run by hand for a class none of
  whose students is in the dataset, prints its warning and enters the loop; the refusal
  is the start command's.
\<close>

lemma script_alone_only_warns:
  "\<not> isl (startup empty_class_env)
   \<and> stdout (snd (projr (startup empty_class_env))) = [MsgNoStudentsWarning, MsgCreatedCsv]
   \<and> camera_open (snd (projr (startup empty_class_env)))"
  by code_simp

text \<open>
  C3. When the write succeeds, \<open>batch_write_attendance\<close> appends the whole queue to the
  log once, in queue order, and leaves the queue empty; on an empty queue it returns at
  once, whatever the file system would do: the log is neither opened nor written.
\<close>

theorem flush_moves_queue_in_order:
  "attendance_queue (batch_write_attendance IoOk s) = []
   \<and> csv_rows (batch_write_attendance IoOk s) = csv_rows s @ attendance_queue s
   \<and> csv_opens (batch_write_attendance IoOk s) = csv_opens s + (if attendance_queue s = [] then 0 else 1)
   \<and> batch_write_attendance outcome (s\<lparr>attendance_queue := []\<rparr>) = s\<lparr>attendance_queue := []\<rparr>"
  by (simp add: batch_write_attendance_def drain_None)

text \<open>
  C4, as stated, fails. With two rows queued and \<open>open\<close> raising, the file is opened
  once, not twice: there is no second attempt within the call, and nothing is written.
\<close>

theorem failed_flush_retried_counterexample:
  "attendance_queue example_queued \<noteq> []
   \<and> csv_opens example_queued = 0
   \<and> csv_opens (batch_write_attendance OpenFails example_queued) = 1
   \<and> csv_rows (batch_write_attendance OpenFails example_queued) = csv_rows example_queued"
  by code_simp

text \<open>
  C4, amended. When \<open>open\<close> raises during a flush there is no retry: the one attempt is
  reported on the console and the call returns. The queue, the log and the marked names
  are unchanged, so the next flush that succeeds writes every retained row, in order.
\<close>

theorem failed_open_keeps_queue:
  assumes "attendance_queue s \<noteq> []"
  shows "attendance_queue (batch_write_attendance OpenFails s) = attendance_queue s
     \<and> csv_rows (batch_write_attendance OpenFails s) = csv_rows s
     \<and> csv_opens (batch_write_attendance OpenFails s) = csv_opens s + 1
     \<and> stdout (batch_write_attendance OpenFails s) = stdout s @ [MsgWriteError]
     \<and> marked_names (batch_write_attendance OpenFails s) = marked_names s
     \<and> csv_rows (batch_write_attendance IoOk (batch_write_attendance OpenFails s))
         = csv_rows s @ attendance_queue s"
  using assms by (simp add: batch_write_attendance_def drain_None)

theorem failed_open_keeps_queue_witness:
  "attendance_queue example_queued \<noteq> []
   \<and> attendance_queue (batch_write_attendance OpenFails example_queued) = attendance_queue example_queued
   \<and> csv_rows (batch_write_attendance IoOk (batch_write_attendance OpenFails example_queued)) =
       [[''Name'', ''RollNo'', ''Branch'', ''Section'', ''Date'', ''Time''],
        [''Alice'', ''CSE001'', ''CSE'', ''A'', ''2024-01-15'', ''09:00:01''],
        [''Dev'', ''CSE007'', ''CSE'', ''A'', ''2024-01-15'', ''09:00:09'']]"
proof -
  have h: "attendance_queue example_queued \<noteq> []"
    by (simp add: example_queued_def)
  from failed_open_keeps_queue [OF h] h show ?thesis
    by (simp add: example_queued_def example_start_def)
qed

text \<open>
  Beside C4: when \<open>writerow\<close> raises, the row it was given has already left the queue,
  so that row is neither in the log nor in the queue afterwards; and when the error comes
  at the closing of the file, the queue is empty and none of its rows is in the log.
\<close>

lemma row_failure_drops_row:
  "attendance_queue (batch_write_attendance (RowFails 0) example_queued) =
     [[''Dev'', ''CSE007'', ''CSE'', ''A'', ''2024-01-15'', ''09:00:09'']]
   \<and> csv_rows (batch_write_attendance (RowFails 0) example_queued) = csv_rows example_queued"
  by code_simp

lemma close_failure_drops_queue:
  "attendance_queue (batch_write_attendance CloseFails example_queued) = []
   \<and> csv_rows (batch_write_attendance CloseFails example_queued) = csv_rows example_queued
   \<and> stdout (batch_write_attendance CloseFails example_queued) = stdout example_queued @ [MsgWriteError]"
  by code_simp

text \<open>
  C5. A detection whose student record has another branch or another section than the
  session changes neither the queue, nor the marked names, nor the rows ever appended,
  nor the log, whatever its confidence; when the confidence is accepted, all it does is
  add one result with status \<open>wrong_class\<close> to the frame's detection results.
\<close>

theorem wrong_class_never_marks:
  assumes "prediction f = Some (label, confidence)"
    and "lookup ctx label = (name, roll_no, student_branch, student_section)"
    and "student_branch \<noteq> ctx_branch ctx \<or> student_section \<noteq> ctx_section ctx"
  shows "attendance_queue (process_face ctx now f s) = attendance_queue s
     \<and> marked_names (process_face ctx now f s) = marked_names s
     \<and> appended (process_face ctx now f s) = appended s
     \<and> csv_rows (process_face ctx now f s) = csv_rows s
     \<and> (confidence < RECOGNITION_CONFIDENCE_THRESHOLD \<longrightarrow>
          process_face ctx now f s =
            s\<lparr>last_detection_results := last_detection_results s @
                [\<lparr>res_bbox = bbox f, res_name = name, res_roll_no = roll_no,
                  res_color = (0, 165, 255), res_status = wrong_class,
                  res_confidence = confidence, res_marked = None,
                  res_correct_class = Some (student_branch, student_section)\<rparr>]\<rparr>)"
  using assms by (auto simp: process_face_def Let_def)

theorem wrong_class_never_marks_witness:
  "prediction (example_face 1 30 ''09:00:03'') = Some (1, 30)
   \<and> (30::real) < RECOGNITION_CONFIDENCE_THRESHOLD
   \<and> lookup example_ctx 1 = (''Bob'', ''ECE002'', ''ECE'', ''B'')
   \<and> ''ECE'' \<noteq> ctx_branch example_ctx
   \<and> attendance_queue (process_face example_ctx 5 (example_face 1 30 ''09:00:03'') example_start) = []
   \<and> marked_names (process_face example_ctx 5 (example_face 1 30 ''09:00:03'') example_start) = {}
   \<and> map res_status (last_detection_results
        (process_face example_ctx 5 (example_face 1 30 ''09:00:03'') example_start)) = [wrong_class]"
proof -
  let ?f = "example_face 1 30 ''09:00:03''"
  have h1: "prediction ?f = Some (1, 30)"
    by (simp add: example_face_def)
  have h2: "(30::real) < RECOGNITION_CONFIDENCE_THRESHOLD"
    by (simp add: RECOGNITION_CONFIDENCE_THRESHOLD_def)
  have h3: "lookup example_ctx 1 = (''Bob'', ''ECE002'', ''ECE'', ''B'')"
    by code_simp
  have h4: "''ECE'' \<noteq> ctx_branch example_ctx \<or> ''B'' \<noteq> ctx_section example_ctx"
    by (simp add: example_ctx_def)
  have h5: "''ECE'' \<noteq> ctx_branch example_ctx"
    by (simp add: example_ctx_def)
  have e: "attendance_queue example_start = []" "marked_names example_start = {}"
      "last_detection_results example_start = []"
    by (simp_all add: example_start_def)
  from wrong_class_never_marks [OF h1 h3 h4, of 5 example_start] h1 h2 h3 h5 e
  show ?thesis by simp
qed

text \<open>
  C6. A detection whose confidence is not below the threshold yields the result named
  Unknown with status \<open>unknown\<close>, whichever label was predicted, and apart from that
  result the state is unchanged: nothing is queued and no name is marked.
\<close>

theorem low_confidence_is_unknown:
  assumes "prediction f = Some (label, confidence)"
    and "\<not> confidence < RECOGNITION_CONFIDENCE_THRESHOLD"
  shows "process_face ctx now f s =
           s\<lparr>last_detection_results := last_detection_results s @
               [\<lparr>res_bbox = bbox f, res_name = ''Unknown'', res_roll_no = [],
                 res_color = (0, 0, 255), res_status = unknown,
                 res_confidence = confidence, res_marked = None,
                 res_correct_class = None\<rparr>]\<rparr>
       \<and> attendance_queue (process_face ctx now f s) = attendance_queue s
       \<and> marked_names (process_face ctx now f s) = marked_names s
       \<and> appended (process_face ctx now f s) = appended s"
  using assms by (simp add: process_face_def Let_def)

theorem low_confidence_is_unknown_witness:
  "prediction (example_face 0 75 ''09:00:04'') = Some (0, 75)
   \<and> \<not> (75::real) < RECOGNITION_CONFIDENCE_THRESHOLD
   \<and> attendance_queue (process_face example_ctx 5 (example_face 0 75 ''09:00:04'') example_start) = []
   \<and> marked_names (process_face example_ctx 5 (example_face 0 75 ''09:00:04'') example_start) = {}
   \<and> map res_name (last_detection_results
        (process_face example_ctx 5 (example_face 0 75 ''09:00:04'') example_start)) = [''Unknown'']"
proof -
  let ?f = "example_face 0 75 ''09:00:04''"
  have h1: "prediction ?f = Some (0, 75)"
    by (simp add: example_face_def)
  have h2: "\<not> (75::real) < RECOGNITION_CONFIDENCE_THRESHOLD"
    by (simp add: RECOGNITION_CONFIDENCE_THRESHOLD_def)
  have e: "attendance_queue example_start = []" "marked_names example_start = {}"
      "last_detection_results example_start = []"
    by (simp_all add: example_start_def)
  from low_confidence_is_unknown [OF h1 h2, of example_ctx 5 example_start] h1 h2 e
  show ?thesis by simp
qed

text \<open>
  C7. After the dataset folders have been loaded, every folder name is bound to a record:
  the database entry under the student id (the name in lower case, spaces replaced by
  underscores) when there is one, otherwise the first database entry whose name equals
  the folder name up to case, otherwise the placeholder with roll number N/A and branch
  and section UNKNOWN. The loop's lookup returns a record for every label: the bound one
  for a label of \<open>label_map\<close>, the placeholder values for a name that the database does
  not know, and for a label outside \<open>label_map\<close> (when no folder is called Unknown).
  This holds for every lower-casing function \<open>low\<close>, so for \<open>str.lower\<close> on any text, and
  for a database whose entries are strings.
\<close>

theorem roster_lookup_total:
  assumes "load_labels low db listing ([], [], 0) = (lm, n2i, n)"
    and "label_map ctx = lm" and "name_to_info ctx = n2i"
    and "(name, True) \<in> set listing"
  shows "map_of n2i name = Some (student_info_for low db name)
     \<and> student_info_for low db name =
         (case map_of db (replace_space (low name)) of
            Some info \<Rightarrow> info
          | None \<Rightarrow>
              (case find (\<lambda>(sid, info). low (dict_get info ''name'' []) = low name) db of
                 Some (sid, info) \<Rightarrow> info
               | None \<Rightarrow> [(''rollNo'', ''N/A''), (''branch'', ''UNKNOWN''), (''section'', ''UNKNOWN'')]))
     \<and> (map_of lm label = Some name \<longrightarrow>
          lookup ctx label =
            (name,
             dict_get (student_info_for low db name) ''rollNo'' ''N/A'',
             dict_get (student_info_for low db name) ''branch'' ''UNKNOWN'',
             dict_get (student_info_for low db name) ''section'' ''UNKNOWN''))
     \<and> (map_of lm other = Some absent \<and> map_of db (replace_space (low absent)) = None
          \<and> (\<forall>(sid, info) \<in> set db. low (dict_get info ''name'' []) \<noteq> low absent) \<longrightarrow>
          lookup ctx other = (absent, ''N/A'', ''UNKNOWN'', ''UNKNOWN''))
     \<and> (map_of lm unseen = None \<and> (''Unknown'', True) \<notin> set listing \<longrightarrow>
          lookup ctx unseen = (''Unknown'', ''N/A'', ''UNKNOWN'', ''UNKNOWN''))"
proof -
  note names = load_labels_names [OF assms(1)]
  have a: "map_of n2i name = Some (student_info_for low db name)"
    using names [of name] assms(4) by simp
  have b: "student_info_for low db name =
         (case map_of db (replace_space (low name)) of
            Some info \<Rightarrow> info
          | None \<Rightarrow>
              (case find (\<lambda>(sid, info). low (dict_get info ''name'' []) = low name) db of
                 Some (sid, info) \<Rightarrow> info
               | None \<Rightarrow> [(''rollNo'', ''N/A''), (''branch'', ''UNKNOWN''), (''section'', ''UNKNOWN'')]))"
    by (auto simp: student_info_for_def search_by_name_find placeholder_def Let_def
             split: option.splits)
  have c: "map_of lm label = Some name \<longrightarrow>
          lookup ctx label =
            (name,
             dict_get (student_info_for low db name) ''rollNo'' ''N/A'',
             dict_get (student_info_for low db name) ''branch'' ''UNKNOWN'',
             dict_get (student_info_for low db name) ''section'' ''UNKNOWN'')"
    using a assms(2,3) by (simp add: lookup_def dict_get_def Let_def)
  have d: "map_of lm other = Some absent \<and> map_of db (replace_space (low absent)) = None
          \<and> (\<forall>(sid, info) \<in> set db. low (dict_get info ''name'' []) \<noteq> low absent) \<longrightarrow>
          lookup ctx other = (absent, ''N/A'', ''UNKNOWN'', ''UNKNOWN'')"
  proof
    assume h: "map_of lm other = Some absent \<and> map_of db (replace_space (low absent)) = None
          \<and> (\<forall>(sid, info) \<in> set db. low (dict_get info ''name'' []) \<noteq> low absent)"
    then have "find (\<lambda>(sid, info). low (dict_get info ''name'' []) = low absent) db = None"
      by (auto simp: find_None_iff)
    with h have p: "student_info_for low db absent = placeholder"
      by (simp add: student_info_for_def search_by_name_find Let_def)
    from load_labels_labels [OF assms(1), of other absent] h
    have "(absent, True) \<in> set listing" by simp
    with names [of absent] p have "map_of n2i absent = Some placeholder" by simp
    with h assms(2,3) show "lookup ctx other = (absent, ''N/A'', ''UNKNOWN'', ''UNKNOWN'')"
      by (simp add: lookup_def dict_get_def Let_def placeholder_def)
  qed
  have e: "map_of lm unseen = None \<and> (''Unknown'', True) \<notin> set listing \<longrightarrow>
          lookup ctx unseen = (''Unknown'', ''N/A'', ''UNKNOWN'', ''UNKNOWN'')"
    using names [of "''Unknown''"] assms(2,3)
    by (simp add: lookup_def dict_get_def Let_def)
  from a b c d e show ?thesis by blast
qed

theorem roster_lookup_total_witness:
  "load_labels ascii_lower example_db
     [(''Alice'', True), (''notes.txt'', False), (''Bob'', True), (''Carol'', True)] ([], [], 0)
     = (label_map example_ctx, name_to_info example_ctx, 3)
   \<and> lookup example_ctx 0 = (''Alice'', ''CSE001'', ''CSE'', ''A'')
   \<and> lookup example_ctx 1 = (''Bob'', ''ECE002'', ''ECE'', ''B'')
   \<and> lookup example_ctx 2 = (''Carol'', ''N/A'', ''UNKNOWN'', ''UNKNOWN'')
   \<and> lookup example_ctx 9 = (''Unknown'', ''N/A'', ''UNKNOWN'', ''UNKNOWN'')"
proof -
  let ?listing = "[(''Alice'', True), (''notes.txt'', False), (''Bob'', True), (''Carol'', True)]"
  have h1: "load_labels ascii_lower example_db ?listing ([], [], 0)
      = (label_map example_ctx, name_to_info example_ctx, 3)"
    by code_simp
  have h4: "(''Alice'', True) \<in> set ?listing" "(''Bob'', True) \<in> set ?listing"
    by simp_all
  have a: "map_of (label_map example_ctx) 0 = Some ''Alice''"
      "map_of (label_map example_ctx) 1 = Some ''Bob''"
    by (simp_all add: example_ctx_def)
  have b: "map_of (label_map example_ctx) 2 = Some ''Carol''
      \<and> map_of example_db (replace_space (ascii_lower ''Carol'')) = None
      \<and> (\<forall>(sid, info) \<in> set example_db.
            ascii_lower (dict_get info ''name'' []) \<noteq> ascii_lower ''Carol'')"
    by code_simp
  have c: "map_of (label_map example_ctx) 9 = None \<and> (''Unknown'', True) \<notin> set ?listing"
    by (simp add: example_ctx_def)
  have d: "dict_get (student_info_for ascii_lower example_db ''Alice'') ''rollNo'' ''N/A'' = ''CSE001''"
    "dict_get (student_info_for ascii_lower example_db ''Alice'') ''branch'' ''UNKNOWN'' = ''CSE''"
    "dict_get (student_info_for ascii_lower example_db ''Alice'') ''section'' ''UNKNOWN'' = ''A''"
    "dict_get (student_info_for ascii_lower example_db ''Bob'') ''rollNo'' ''N/A'' = ''ECE002''"
    "dict_get (student_info_for ascii_lower example_db ''Bob'') ''branch'' ''UNKNOWN'' = ''ECE''"
    "dict_get (student_info_for ascii_lower example_db ''Bob'') ''section'' ''UNKNOWN'' = ''B''"
    by code_simp+
  from roster_lookup_total [OF h1 refl refl h4(1), of 0 2 "''Carol''" 9]
       roster_lookup_total [OF h1 refl refl h4(2), of 1 2 "''Carol''" 9]
       h1 a b c d
  show ?thesis by simp
qed

text \<open>
  C8. When the camera delivers \<open>T\<close> frames and then fails to read, and no frame raises
  or is answered with q, face detection is called on exactly the frames whose number,
  counted from 1, is a multiple of \<open>process_every_n_frames\<close>: \<open>T div 2\<close> calls.
\<close>

theorem recognition_on_every_second_frame:
  assumes "startup env = Inr (ctx, s0)"
    and "\<forall>fi \<in> set frames. ret fi \<and> fault fi = None \<and> wait_key fi mod 256 \<noteq> 113 \<and> wait_key fi mod 256 \<noteq> 81"
    and "\<not> ret stop" and "fault stop = None"
  shows "fst (loop ctx (frames @ [stop]) s0) = Some CameraReadFailure
     \<and> detected_at (snd (loop ctx (frames @ [stop]) s0)) =
         filter (\<lambda>i. i mod process_every_n_frames = 0) [1 ..< Suc (length frames)]
     \<and> length (detected_at (snd (loop ctx (frames @ [stop]) s0))) = length frames div process_every_n_frames"
proof -
  from assms(1) have s0: "frame_count s0 = 0" "detected_at s0 = []"
    by (auto simp: startup_def Let_def split: if_splits option.splits prod.splits)
  from assms(2) have "\<forall>fi \<in> set frames. quiet fi"
    by (simp add: quiet_def)
  from loop_quiet [OF this, of ctx s0] s0
  obtain s1 where l: "loop ctx frames s0 = (None, s1)"
    and d: "detected_at s1 = filter (\<lambda>i. i mod process_every_n_frames = 0) [1 ..< Suc (length frames)]"
    by (cases "loop ctx frames s0") auto
  have "loop ctx (frames @ [stop]) s0 = (Some CameraReadFailure, s1\<lparr>stdout := stdout s1 @ [MsgCannotRead]\<rparr>)"
    by (simp add: loop_append l loop_body_read_failure [OF assms(3,4)])
  moreover have "length (filter (\<lambda>i. i mod process_every_n_frames = 0) [1 ..< Suc (length frames)])
      = length frames div process_every_n_frames"
    using count_multiples [of process_every_n_frames "length frames"]
    by (simp add: process_every_n_frames_def del: upt_Suc)
  ultimately show ?thesis
    using d by (simp del: upt_Suc)
qed

theorem recognition_on_every_second_frame_witness:
  "startup example_env = Inr (example_ctx, example_start)
   \<and> length (example_frames @ [example_frame []]) = 3
   \<and> fst (loop example_ctx ((example_frames @ [example_frame []]) @ [example_stop]) example_start)
       = Some CameraReadFailure
   \<and> detected_at (snd (loop example_ctx ((example_frames @ [example_frame []]) @ [example_stop]) example_start))
       = [2]"
proof -
  let ?frames = "example_frames @ [example_frame []]"
  have h1: "startup example_env = Inr (example_ctx, example_start)"
    by code_simp
  have h2: "\<forall>fi \<in> set ?frames.
      ret fi \<and> fault fi = None \<and> wait_key fi mod 256 \<noteq> 113 \<and> wait_key fi mod 256 \<noteq> 81"
    by (simp add: example_frames_def example_frame_def)
  have h3: "\<not> ret example_stop" "fault example_stop = None"
    by (simp_all add: example_stop_def example_frame_def)
  have l: "length ?frames = 3"
    by (simp add: example_frames_def)
  have f: "filter (\<lambda>i. i mod process_every_n_frames = 0) [1 ..< Suc 3] = [2]"
    by code_simp
  from recognition_on_every_second_frame [OF h1 h2 h3]
  have "fst (loop example_ctx (?frames @ [example_stop]) example_start) = Some CameraReadFailure"
    and "detected_at (snd (loop example_ctx (?frames @ [example_stop]) example_start)) =
           filter (\<lambda>i. i mod process_every_n_frames = 0) [1 ..< Suc (length ?frames)]"
    by blast+
  with h1 l f show ?thesis
    by (simp only: simp_thms)
qed

text \<open>
  C9. Whichever way the loop is left (camera read failure, q pressed, Ctrl+C, any other
  exception), the session ends through the final flush: the file is opened if and only if
  rows are queued, with a successful write the queue ends empty and all its rows are in
  the log, then the camera is released, and the summary line is printed last.
\<close>

theorem final_flush_on_every_exit:
  assumes "loop ctx frames s0 = (Some e, s)"
  shows "run_session ctx frames outcome s0 = Some (e, session_end e outcome s)
     \<and> csv_opens (session_end e outcome s) = csv_opens s + (if attendance_queue s = [] then 0 else 1)
     \<and> attendance_queue (session_end e IoOk s) = []
     \<and> csv_rows (session_end e IoOk s) = csv_rows s @ attendance_queue s
     \<and> \<not> camera_open (session_end e outcome s)
     \<and> last (stdout (session_end e outcome s)) = MsgTotalPresent (card (marked_names s))"
proof -
  have r: "run_session ctx frames outcome s0 = Some (e, session_end e outcome s)"
    using assms by (simp add: run_session_def)
  have o: "csv_opens (session_end e outcome s) = csv_opens s + (if attendance_queue s = [] then 0 else 1)"
    by (cases e; cases outcome)
       (simp_all add: session_end_def batch_write_attendance_def Let_def split: prod.splits)
  have q: "attendance_queue (session_end e IoOk s) = []"
    by (cases e) (simp_all add: session_end_def batch_write_attendance_def Let_def drain_None)
  have w: "csv_rows (session_end e IoOk s) = csv_rows s @ attendance_queue s"
    by (cases e) (simp_all add: session_end_def batch_write_attendance_def Let_def drain_None)
  have c: "\<not> camera_open (session_end e outcome s)"
    by (simp add: session_end_def Let_def)
  from r o q w c session_end_last [of e outcome s] show ?thesis by blast
qed

theorem final_flush_on_every_exit_witness:
  "loop example_ctx (example_frames @ [example_stop]) example_start =
     (Some CameraReadFailure, snd (loop example_ctx (example_frames @ [example_stop]) example_start))
   \<and> attendance_queue (snd (loop example_ctx (example_frames @ [example_stop]) example_start)) =
        [[''Alice'', ''CSE001'', ''CSE'', ''A'', ''2024-01-15'', ''09:00:01'']]
   \<and> attendance_queue (session_end CameraReadFailure IoOk
        (snd (loop example_ctx (example_frames @ [example_stop]) example_start))) = []
   \<and> csv_rows (session_end CameraReadFailure IoOk
        (snd (loop example_ctx (example_frames @ [example_stop]) example_start))) =
        [[''Name'', ''RollNo'', ''Branch'', ''Section'', ''Date'', ''Time''],
         [''Alice'', ''CSE001'', ''CSE'', ''A'', ''2024-01-15'', ''09:00:01'']]"
proof -
  let ?l = "loop example_ctx (example_frames @ [example_stop]) example_start"
  have "fst ?l = Some CameraReadFailure"
    by code_simp
  then have h1: "?l = (Some CameraReadFailure, snd ?l)"
    by (cases ?l) simp
  have h2: "attendance_queue (snd ?l) = [[''Alice'', ''CSE001'', ''CSE'', ''A'', ''2024-01-15'', ''09:00:01'']]"
    by code_simp
  have h3: "csv_rows (snd ?l) = [[''Name'', ''RollNo'', ''Branch'', ''Section'', ''Date'', ''Time'']]"
    by code_simp
  from final_flush_on_every_exit [OF h1, of IoOk] h1 h2 h3
  show ?thesis by simp
qed

text \<open>
  C10, as stated, fails. Ctrl+C arrives while Alice is being marked, after her row went
  into the queue and before her name went into \<open>marked_names\<close>: the final flush writes
  the row, and the summary counts nobody present.
\<close>

theorem present_count_one_short_counterexample:
  "fst (the (run_session example_ctx torn_frames IoOk example_start)) = Interrupted
   \<and> appended (snd (the (run_session example_ctx torn_frames IoOk example_start))) =
       [[''Alice'', ''CSE001'', ''CSE'', ''A'', ''2024-01-15'', ''09:00:01'']]
   \<and> csv_rows (snd (the (run_session example_ctx torn_frames IoOk example_start))) =
       [[''Name'', ''RollNo'', ''Branch'', ''Section'', ''Date'', ''Time''],
        [''Alice'', ''CSE001'', ''CSE'', ''A'', ''2024-01-15'', ''09:00:01'']]
   \<and> card (marked_names (snd (the (run_session example_ctx torn_frames IoOk example_start)))) = 0
   \<and> last (stdout (snd (the (run_session example_ctx torn_frames IoOk example_start)))) =
       MsgTotalPresent 0"
  by code_simp

text \<open>
  C10, amended. In a session that started normally, a marking appends one row and then
  adds one name, and nothing else adds to either. So the rows ever appended are never
  fewer than the marked names and never more than one ahead; they are equally many
  whenever the loop is between two iterations, after every complete detection, and in
  every session in which no exception arrives between the append and the add. In such a
  session the count printed in the summary is the number of rows handed to the writer; in
  every session it is the number of marked names.
\<close>

theorem present_count_bounds_events:
  assumes "startup env = Inr (ctx, s0)"
  shows "card (marked_names (snd (loop ctx frames s0))) \<le> length (appended (snd (loop ctx frames s0)))
     \<and> length (appended (snd (loop ctx frames s0))) \<le> card (marked_names (snd (loop ctx frames s0))) + 1
     \<and> (fst (loop ctx frames s0) = None \<longrightarrow>
          card (marked_names (snd (loop ctx frames s0))) = length (appended (snd (loop ctx frames s0))))
     \<and> ((\<forall>fi \<in> set calm. marking_fault fi = None) \<longrightarrow>
          card (marked_names (snd (loop ctx calm s0))) = length (appended (snd (loop ctx calm s0))))
     \<and> ((\<forall>fi \<in> set calm. marking_fault fi = None)
          \<and> run_session ctx calm outcome s0 = Some (e, s') \<longrightarrow>
          last (stdout s') = MsgTotalPresent (length (appended s')))
     \<and> (finite (marked_names s) \<and> card (marked_names s) = length (appended s) \<longrightarrow>
          card (marked_names (process_face ctx now f s)) = length (appended (process_face ctx now f s)))
     \<and> (run_session ctx frames outcome s0 = Some (e', s'') \<longrightarrow>
          last (stdout s'') = MsgTotalPresent (card (marked_names s'')))"
proof -
  have inv: "marked_inv (snd (loop ctx frames s0))
      \<or> (fst (loop ctx frames s0) \<noteq> None \<and> torn_inv (snd (loop ctx frames s0)))"
    using loop_inv [OF startup_inv [OF assms]] .
  then have a: "card (marked_names (snd (loop ctx frames s0))) \<le> length (appended (snd (loop ctx frames s0)))
     \<and> length (appended (snd (loop ctx frames s0))) \<le> card (marked_names (snd (loop ctx frames s0))) + 1"
    using marked_inv_card [of "snd (loop ctx frames s0)"] torn_inv_card [of "snd (loop ctx frames s0)"]
    by auto
  from inv have b: "fst (loop ctx frames s0) = None \<longrightarrow>
          card (marked_names (snd (loop ctx frames s0))) = length (appended (snd (loop ctx frames s0)))"
    using marked_inv_card [of "snd (loop ctx frames s0)"] by auto
  have c: "(\<forall>fi \<in> set calm. marking_fault fi = None) \<longrightarrow>
          card (marked_names (snd (loop ctx calm s0))) = length (appended (snd (loop ctx calm s0)))"
    using loop_inv_calm [OF startup_inv [OF assms], of calm ctx]
    by (auto dest: marked_inv_card)
  have d: "(\<forall>fi \<in> set calm. marking_fault fi = None)
          \<and> run_session ctx calm outcome s0 = Some (e, s') \<longrightarrow>
          last (stdout s') = MsgTotalPresent (length (appended s'))"
  proof
    assume h: "(\<forall>fi \<in> set calm. marking_fault fi = None)
          \<and> run_session ctx calm outcome s0 = Some (e, s')"
    obtain x s1 where l: "loop ctx calm s0 = (x, s1)"
      by (cases "loop ctx calm s0")
    with h have s': "s' = session_end e outcome s1"
      by (auto simp: run_session_def split: option.splits)
    from c h l have "card (marked_names s1) = length (appended s1)"
      by simp
    with s' show "last (stdout s') = MsgTotalPresent (length (appended s'))"
      by (simp add: session_end_last)
  qed
  have f: "finite (marked_names s) \<and> card (marked_names s) = length (appended s) \<longrightarrow>
          card (marked_names (process_face ctx now f s)) = length (appended (process_face ctx now f s))"
    using process_face_card [of s ctx now f] by blast
  have g: "run_session ctx frames outcome s0 = Some (e', s'') \<longrightarrow>
          last (stdout s'') = MsgTotalPresent (card (marked_names s''))"
    by (auto simp: run_session_def session_end_last split: option.splits prod.splits)
  from a b c d f g show ?thesis by blast
qed

theorem present_count_bounds_events_witness:
  "startup example_env = Inr (example_ctx, example_start)
   \<and> card (marked_names (snd (loop example_ctx torn_frames example_start))) = 0
   \<and> length (appended (snd (loop example_ctx torn_frames example_start))) = 1
   \<and> fst (loop example_ctx example_frames example_start) = None
   \<and> card (marked_names (snd (loop example_ctx example_frames example_start))) = 1
   \<and> length (appended (snd (loop example_ctx example_frames example_start))) = 1
   \<and> map marking_fault (example_frames @ [example_stop]) = [None, None, None]
   \<and> card (marked_names (process_face example_ctx 5 (example_face 0 40 ''09:00:01'') example_start)) =
       length (appended (process_face example_ctx 5 (example_face 0 40 ''09:00:01'') example_start))
   \<and> fst (the (run_session example_ctx (example_frames @ [example_stop]) IoOk example_start)) = CameraReadFailure
   \<and> last (stdout (snd (the (run_session example_ctx (example_frames @ [example_stop]) IoOk example_start))))
        = MsgTotalPresent 1"
proof -
  let ?calm = "example_frames @ [example_stop]"
  let ?r = "run_session example_ctx ?calm IoOk example_start"
  have h1: "startup example_env = Inr (example_ctx, example_start)"
    by code_simp
  have t: "length (appended (snd (loop example_ctx torn_frames example_start))) = 1"
    by code_simp
  have t0: "card (marked_names (snd (loop example_ctx torn_frames example_start))) = 0"
    by code_simp
  have n: "fst (loop example_ctx example_frames example_start) = None"
    by code_simp
  have h2: "length (appended (snd (loop example_ctx example_frames example_start))) = 1"
    by code_simp
  have m: "map marking_fault ?calm = [None, None, None]"
    by code_simp
  then have q: "\<forall>fi \<in> set ?calm. marking_fault fi = None"
    by (simp add: example_frames_def)
  have h3: "fst (the ?r) = CameraReadFailure"
    by code_simp
  have h4: "?r \<noteq> None"
    by code_simp
  then have h5: "?r = Some (CameraReadFailure, snd (the ?r))"
    using h3 by (cases ?r) auto
  have h6: "length (appended (snd (the ?r))) = 1"
    by code_simp
  have fin: "finite (marked_names example_start)
      \<and> card (marked_names example_start) = length (appended example_start)"
    by (simp add: example_start_def)
  from present_count_bounds_events [OF h1, where frames = example_frames] n h2
  have a: "card (marked_names (snd (loop example_ctx example_frames example_start))) = 1"
    by simp
  from present_count_bounds_events
         [OF h1, where calm = ?calm and outcome = IoOk and e = CameraReadFailure
            and s' = "snd (the ?r)"] q h5
  have b: "last (stdout (snd (the ?r))) = MsgTotalPresent (length (appended (snd (the ?r))))"
    by blast
  from present_count_bounds_events
         [OF h1, where s = example_start and now = 5 and f = "example_face 0 40 ''09:00:01''"] fin
  have c: "card (marked_names (process_face example_ctx 5 (example_face 0 40 ''09:00:01'') example_start)) =
       length (appended (process_face example_ctx 5 (example_face 0 40 ''09:00:01'') example_start))"
    by blast
  from present_count_bounds_events [OF h1, where frames = torn_frames] t
  have "card (marked_names (snd (loop example_ctx torn_frames example_start))) \<le> 1"
    by simp
  with h1 t t0 n a h2 m b c h3 h6 show ?thesis
    by simp
qed

end
